theory Spec2Isabelle
  imports
    Main
    "HOL-Library.AList"
    "HOL-Library.Sublist"
    "HOL-Library.Char_ord"
    "HOL-Library.List_Lexorder"
begin

section \<open>Entity model of \<^verbatim>\<open>heritage_oodb_sim.py\<close>\<close>

text \<open>
  The dataclasses of the source become records, with the field types the annotations
  declare: \<^verbatim>\<open>str\<close> is \<^typ>\<open>string\<close>, \<^verbatim>\<open>Optional[str]\<close> is
  \<^typ>\<open>string option\<close>, \<^verbatim>\<open>List[str]\<close> is \<^typ>\<open>string list\<close>. A
  \<^typ>\<open>string\<close> stands for the UTF-8 encoding of the Python string: equality, the
  substring test and the order by code points (Python compares strings lexicographically,
  character by character) are the same on the encodings, the order being that of
  \<^theory_text>\<open>List_Lexorder\<close> over \<^theory_text>\<open>Char_ord\<close>. The untyped
  \<^verbatim>\<open>Dict\<close> fields (snapshot, dimensions, provenance) are opaque to every operation
  of the program and are kept as association lists of scalars.
\<close>

datatype scalar = SInt int | SStr string

type_synonym blob = "(string \<times> scalar) list"

record person =
  person_id :: string
  person_name :: string
  role :: "string option"

record institution =
  inst_id :: string
  inst_name :: string
  address :: "string option"

record artifact_version =
  version_id :: string
  timestamp :: string
  "notes" :: string
  snapshot :: blob

record digital_surrogate =
  surrogate_id :: string
  file_ref :: string
  file_type :: string
  derived_from_id :: "string option"

record conservation_record =
  record_id :: string
  date :: string
  restorer_id :: string
  treatment :: string
  before_surrogates :: "string list"
  after_surrogates :: "string list"

record loan =
  loan_id :: string
  loan_artifact_id :: string
  from_inst :: string
  to_inst :: string
  start_date :: string
  end_date :: string
  status :: string

record artifact =
  artifact_id :: string
  title :: string
  creator :: string
  date_created :: string
  material :: "string option"
  dimensions :: "blob option"
  provenance :: "blob list"
  versions :: "artifact_version list"
  digital_surrogates :: "string list"
  conservation_records :: "string list"
  loans :: "string list"

text \<open>
  The store is dynamically typed: \<^verbatim>\<open>put\<close> accepts any object, and the title index is
  itself a dictionary stored inside a collection. \<open>pyval\<close> is the universe of the values
  that the program handles. A Python \<^verbatim>\<open>dict\<close> keeps its keys in insertion order and an
  assignment to an existing key keeps the key's position: that is an association list
  read with \<^const>\<open>map_of\<close> and written with \<^const>\<open>AList.update\<close>.
\<close>

datatype pyval =
    VNone
  | VBool bool
  | VStr string
  | VDict "(string \<times> pyval) list"
  | VPerson person
  | VInstitution institution
  | VDigital digital_surrogate
  | VConservation conservation_record
  | VLoan loan
  | VArtifact artifact

type_synonym pydict = "(string \<times> pyval) list"

datatype error = KeyError | AttributeError | TypeError

text \<open>Truth value of an object in a condition (\<^verbatim>\<open>if loan and ...\<close>): \<^verbatim>\<open>None\<close>, the
  empty string and the empty dictionary are false, a dataclass instance is true.\<close>

fun truthy :: "pyval \<Rightarrow> bool" where
  "truthy VNone = False"
| "truthy (VBool b) = b"
| "truthy (VStr s) = (s \<noteq> [])"
| "truthy (VDict d) = (d \<noteq> [])"
| "truthy _ = True"

text \<open>Attribute reads. An object of another class has no such attribute, and the read
  raises \<^verbatim>\<open>AttributeError\<close>.\<close>

fun attr_status :: "pyval \<Rightarrow> error + string" where
  "attr_status (VLoan l) = Inr (status l)"
| "attr_status _ = Inl AttributeError"

fun attr_loan_id :: "pyval \<Rightarrow> error + string" where
  "attr_loan_id (VLoan l) = Inr (loan_id l)"
| "attr_loan_id _ = Inl AttributeError"

fun attr_date :: "pyval \<Rightarrow> error + string" where
  "attr_date (VConservation c) = Inr (date c)"
| "attr_date _ = Inl AttributeError"

fun attr_record_id :: "pyval \<Rightarrow> error + string" where
  "attr_record_id (VConservation c) = Inr (record_id c)"
| "attr_record_id _ = Inl AttributeError"

fun attr_title :: "pyval \<Rightarrow> error + string" where
  "attr_title (VArtifact a) = Inr (title a)"
| "attr_title _ = Inl AttributeError"

fun attr_material :: "pyval \<Rightarrow> error + string option" where
  "attr_material (VArtifact a) = Inr (material a)"
| "attr_material _ = Inl AttributeError"

text \<open>
  \<^verbatim>\<open>str.lower()\<close> is Python's built-in lower-casing of every cased letter of Unicode.
  It is not defined here: the operations that call it (\<^verbatim>\<open>put\<close> and
  \<^verbatim>\<open>query_artifacts_by_material\<close>) take it as their first parameter \<open>lw\<close>, and
  every general statement below holds for whatever function stands for it.
\<close>

text \<open>\<^verbatim>\<open>d.get(k)\<close> on a dictionary answers \<^verbatim>\<open>None\<close> for a missing key; on an object
  that is not a dictionary there is no method \<^verbatim>\<open>get\<close>.\<close>

definition dict_lookup :: "pydict \<Rightarrow> string \<Rightarrow> pyval" where
  "dict_lookup d k = (case map_of d k of None \<Rightarrow> VNone | Some v \<Rightarrow> v)"

fun method_get :: "pyval \<Rightarrow> string \<Rightarrow> error + pyval" where
  "method_get (VDict d) k = Inr (dict_lookup d k)"
| "method_get _ k = Inl AttributeError"

text \<open>\<^verbatim>\<open>d.setdefault(k, v)\<close>: the value under \<open>k\<close>, after storing \<open>v\<close> there
  when \<open>k\<close> was missing.\<close>

definition setdefault :: "pydict \<Rightarrow> string \<Rightarrow> pyval \<Rightarrow> pyval \<times> pydict" where
  "setdefault d k v =
     (case map_of d k of None \<Rightarrow> (v, AList.update k v d) | Some w \<Rightarrow> (w, d))"

section \<open>Artifact.current\_version\<close>

text \<open>\<^verbatim>\<open>sorted(xs, key=f)\<close> is a stable sort, as \<^const>\<open>sort_key\<close> is; \<^verbatim>\<open>[-1]\<close> on
  the non-empty result is its last element.\<close>

definition current_version :: "artifact \<Rightarrow> artifact_version option" where
  "current_version a =
     (if versions a = [] then None
      else Some (last (sort_key timestamp (versions a))))"

section \<open>SimpleOODB\<close>

text \<open>
  The state of a \<^verbatim>\<open>SimpleOODB\<close> is the content of its shelf: what
  \<^verbatim>\<open>self._shelf[c]\<close> answers for each collection name \<open>c\<close>. The shelf is opened with
  \<^verbatim>\<open>writeback=True\<close>, so an entry that has been read is kept in the shelf's cache, a
  mutation of it is seen by every later read, and \<^verbatim>\<open>sync()\<close> only copies the cache to the
  file: none of the operations below can tell the cache from the file, and \<^verbatim>\<open>save\<close>
  does not change the content. Every value the program stores at the top level of the
  shelf is a dictionary.
\<close>

type_synonym store = "string \<rightharpoonup> pydict"

definition collection_names :: "string list" where
  "collection_names =
     [''artifacts'', ''digital'', ''people'', ''institutions'', ''loans'',
      ''conservations'', ''indexes'']"

fun ensure_collections :: "string list \<Rightarrow> store \<Rightarrow> store" where
  "ensure_collections [] s = s"
| "ensure_collections (col # cols) s =
     ensure_collections cols (if s col = None then s(col \<mapsto> []) else s)"

text \<open>\<^verbatim>\<open>_open_db\<close>, from the content of the file to the content of the open shelf.
  After the loop the collection \<^verbatim>\<open>indexes\<close> is present, so the subscript
  \<^verbatim>\<open>self._shelf['indexes']\<close> cannot fail; the model keeps the \<^verbatim>\<open>KeyError\<close>
  branch of the subscript as leaving the store as it is.\<close>

definition open_db :: "store \<Rightarrow> store" where
  "open_db file =
     (let s = ensure_collections collection_names file in
      case s ''indexes'' of
        None \<Rightarrow> s
      | Some ix \<Rightarrow>
          if map_of ix ''by_title'' = None
          then s(''indexes'' \<mapsto> AList.update ''by_title'' (VDict []) ix)
          else s)"

definition save :: "store \<Rightarrow> store" where
  "save s = s"

text \<open>\<^verbatim>\<open>get(collection, key=None)\<close>. The key is whatever object the caller passes:
  \<^verbatim>\<open>None\<close> asks for the whole collection, a string is looked up, a boolean is
  hashable and equal to no string, and a dictionary or a dataclass instance (the
  dataclasses define \<^verbatim>\<open>__eq__\<close> and are not frozen) is unhashable, for which
  \<^verbatim>\<open>dict.get\<close> raises \<^verbatim>\<open>TypeError\<close>.\<close>

definition get :: "store \<Rightarrow> string \<Rightarrow> pyval \<Rightarrow> error + pyval" where
  "get s collection key =
     (let col = (case s collection of None \<Rightarrow> [] | Some d \<Rightarrow> d) in
      case key of
        VNone \<Rightarrow> Inr (VDict col)
      | VStr k \<Rightarrow> Inr (dict_lookup col k)
      | VBool b \<Rightarrow> Inr VNone
      | _ \<Rightarrow> Inl TypeError)"

text \<open>\<^verbatim>\<open>put(collection, key, obj)\<close> returns nothing and changes the store; an exception
  leaves the changes made before it. The result is the outcome and the store after the
  call. In \<^verbatim>\<open>idx[obj.title.lower()] = key\<close> the subscript expression is evaluated
  before the item assignment is attempted; \<open>lw\<close> stands for \<^verbatim>\<open>str.lower\<close>.\<close>

definition put ::
  "(string \<Rightarrow> string) \<Rightarrow> store \<Rightarrow> string \<Rightarrow> string \<Rightarrow> pyval \<Rightarrow> (error + unit) \<times> store" where
  "put lw s collection key obj =
     (case s collection of
        None \<Rightarrow> (Inl KeyError, s)
      | Some col \<Rightarrow>
          let s1 = s(collection \<mapsto> AList.update key obj col) in
          if collection = ''artifacts'' then
            (case s1 ''indexes'' of
               None \<Rightarrow> (Inl KeyError, s1)
             | Some ix \<Rightarrow>
                 let (idx, ix1) = setdefault ix ''by_title'' (VDict []);
                     s2 = s1(''indexes'' \<mapsto> ix1)
                 in (case attr_title obj of
                       Inl e \<Rightarrow> (Inl e, s2)
                     | Inr t \<Rightarrow>
                         (case idx of
                            VDict d \<Rightarrow>
                              (Inr (), save (s2(''indexes'' \<mapsto>
                                 AList.update ''by_title''
                                   (VDict (AList.update (lw t) (VStr key) d)) ix1)))
                          | _ \<Rightarrow> (Inl TypeError, s2))))
          else (Inr (), save s1))"

text \<open>\<^verbatim>\<open>a.material and material.lower() in a.material.lower()\<close>\<close>

definition material_matches :: "(string \<Rightarrow> string) \<Rightarrow> string \<Rightarrow> string option \<Rightarrow> bool" where
  "material_matches lw m mat =
     (case mat of
        None \<Rightarrow> False
      | Some mt \<Rightarrow> mt \<noteq> [] \<and> sublist (lw m) (lw mt))"

fun scan_materials :: "(string \<Rightarrow> string) \<Rightarrow> string \<Rightarrow> pyval list \<Rightarrow> error + pyval list" where
  "scan_materials lw m [] = Inr []"
| "scan_materials lw m (a # as) =
     (case attr_material a of
        Inl e \<Rightarrow> Inl e
      | Inr mat \<Rightarrow>
          (case scan_materials lw m as of
             Inl e \<Rightarrow> Inl e
           | Inr r \<Rightarrow> Inr (if material_matches lw m mat then a # r else r)))"

definition query_artifacts_by_material ::
  "(string \<Rightarrow> string) \<Rightarrow> store \<Rightarrow> string \<Rightarrow> error + pyval list" where
  "query_artifacts_by_material lw s m =
     (case s ''artifacts'' of
        None \<Rightarrow> Inl KeyError
      | Some d \<Rightarrow> scan_materials lw m (map snd d))"

section \<open>Artifact.is\_on\_loan and Artifact.display\_status\<close>

text \<open>
  The parameter \<^verbatim>\<open>store\<close> of the two methods is duck-typed: they call
  \<^verbatim>\<open>store.get(name, {})\<close>. The demo passes the shelf (\<^verbatim>\<open>store._shelf\<close>), whose
  \<^verbatim>\<open>get\<close> takes a default; on a \<^verbatim>\<open>SimpleOODB\<close> the second argument of
  \<^verbatim>\<open>get\<close> is the key.
\<close>

datatype store_arg = Shelf store | SimpleOODB store

fun store_get :: "store_arg \<Rightarrow> string \<Rightarrow> pyval \<Rightarrow> error + pyval" where
  "store_get (Shelf sh) name dflt = Inr (case sh name of None \<Rightarrow> dflt | Some d \<Rightarrow> VDict d)"
| "store_get (SimpleOODB sh) name key = get sh name key"

definition resolve :: "store_arg \<Rightarrow> string \<Rightarrow> string \<Rightarrow> error + pyval" where
  "resolve st name ident =
     (case store_get st name (VDict []) of
        Inl e \<Rightarrow> Inl e
      | Inr col \<Rightarrow> method_get col ident)"

fun scan_loans :: "store_arg \<Rightarrow> string list \<Rightarrow> error + (bool \<times> pyval)" where
  "scan_loans st [] = Inr (False, VNone)"
| "scan_loans st (lid # lids) =
     (case resolve st ''loans'' lid of
        Inl e \<Rightarrow> Inl e
      | Inr ln \<Rightarrow>
          if truthy ln then
            (case attr_status ln of
               Inl e \<Rightarrow> Inl e
             | Inr stat \<Rightarrow> if stat = ''ACTIVE'' then Inr (True, ln) else scan_loans st lids)
          else scan_loans st lids)"

definition is_on_loan :: "artifact \<Rightarrow> store_arg \<Rightarrow> error + (bool \<times> pyval)" where
  "is_on_loan a st = scan_loans st (loans a)"

fun resolve_all :: "store_arg \<Rightarrow> string \<Rightarrow> string list \<Rightarrow> error + pyval list" where
  "resolve_all st name [] = Inr []"
| "resolve_all st name (cid # cids) =
     (case resolve st name cid of
        Inl e \<Rightarrow> Inl e
      | Inr c \<Rightarrow>
          (case resolve_all st name cids of
             Inl e \<Rightarrow> Inl e
           | Inr cs \<Rightarrow> Inr (c # cs)))"

text \<open>The keys of \<^verbatim>\<open>sorted(crs, key=lambda c: c.date)\<close> are computed for every element
  before the sort; an element without \<^verbatim>\<open>date\<close> raises.\<close>

fun conservations_of :: "pyval list \<Rightarrow> error + conservation_record list" where
  "conservations_of [] = Inr []"
| "conservations_of (VConservation c # vs) =
     (case conservations_of vs of Inl e \<Rightarrow> Inl e | Inr cs \<Rightarrow> Inr (c # cs))"
| "conservations_of (_ # vs) = Inl AttributeError"

definition last_conservation :: "artifact \<Rightarrow> store_arg \<Rightarrow> error + conservation_record option" where
  "last_conservation a st =
     (if conservation_records a = [] then Inr None
      else
        (case resolve_all st ''conservations'' (conservation_records a) of
           Inl e \<Rightarrow> Inl e
         | Inr crs0 \<Rightarrow>
             let crs = filter truthy crs0 in
             if crs = [] then Inr None
             else
               (case conservations_of crs of
                  Inl e \<Rightarrow> Inl e
                | Inr cs \<Rightarrow> Inr (Some (last (sort_key date cs))))))"

definition opt_str :: "string option \<Rightarrow> pyval" where
  "opt_str x = (case x of None \<Rightarrow> VNone | Some s \<Rightarrow> VStr s)"

definition display_status :: "artifact \<Rightarrow> store_arg \<Rightarrow> error + pydict" where
  "display_status a st =
     (case is_on_loan a st of
        Inl e \<Rightarrow> Inl e
      | Inr (onloan, ln) \<Rightarrow>
          let cv = current_version a in
          (case last_conservation a st of
             Inl e \<Rightarrow> Inl e
           | Inr lc \<Rightarrow>
               (case (if truthy ln then map_sum id VStr (attr_loan_id ln) else Inr VNone) of
                  Inl e \<Rightarrow> Inl e
                | Inr loan_ref \<Rightarrow>
                    Inr [(''artifact_id'', VStr (artifact_id a)),
                         (''title'', VStr (title a)),
                         (''on_loan'', VBool onloan),
                         (''loan_ref'', loan_ref),
                         (''current_version'', opt_str (map_option version_id cv)),
                         (''last_conservation'', opt_str (map_option record_id lc))])))"

section \<open>Notions used to state the properties\<close>

text \<open>The records of a collection, in the order \<^verbatim>\<open>values()\<close> gives them, and the
  title index \<^verbatim>\<open>self._shelf['indexes']['by_title']\<close>.\<close>

definition collection_of :: "store \<Rightarrow> string \<Rightarrow> pydict" where
  "collection_of s c = (case s c of None \<Rightarrow> [] | Some d \<Rightarrow> d)"

definition title_index :: "store \<Rightarrow> pyval option" where
  "title_index s = (case s ''indexes'' of None \<Rightarrow> None | Some ix \<Rightarrow> map_of ix ''by_title'')"

text \<open>What \<^verbatim>\<open>_open_db\<close> establishes: the seven collections are there, and so is the
  title index.\<close>

definition opened :: "store \<Rightarrow> bool" where
  "opened s \<longleftrightarrow> list_all (\<lambda>c. s c \<noteq> None) collection_names \<and> title_index s \<noteq> None"

text \<open>The stores the program can be in: a new file that has been opened, then any
  sequence of \<^verbatim>\<open>put\<close> calls (whether they return or raise) and of reopenings.\<close>

inductive reachable :: "(string \<Rightarrow> string) \<Rightarrow> store \<Rightarrow> bool" for lw where
  fresh: "reachable lw (open_db Map.empty)"
| reopen: "reachable lw s \<Longrightarrow> reachable lw (open_db s)"
| after_put: "reachable lw s \<Longrightarrow> reachable lw (snd (put lw s c k v))"

text \<open>The class of a stored object.\<close>

fun is_loan :: "pyval \<Rightarrow> bool" where
  "is_loan (VLoan l) = True"
| "is_loan _ = False"

fun is_conservation :: "pyval \<Rightarrow> bool" where
  "is_conservation (VConservation c) = True"
| "is_conservation _ = False"

fun is_artifact :: "pyval \<Rightarrow> bool" where
  "is_artifact (VArtifact a) = True"
| "is_artifact _ = False"

fun is_dict :: "pyval \<Rightarrow> bool" where
  "is_dict (VDict d) = True"
| "is_dict _ = False"

text \<open>A collection holds records of one entity type.\<close>

definition holds_only :: "(pyval \<Rightarrow> bool) \<Rightarrow> store \<Rightarrow> string \<Rightarrow> bool" where
  "holds_only P s c \<longleftrightarrow> list_all P (map snd (collection_of s c))"

text \<open>Index \<open>i\<close> is the last position of \<open>xs\<close> that carries the greatest key: no
  key is greater, and every later key is strictly smaller.\<close>

definition last_greatest :: "('a \<Rightarrow> 'k::linorder) \<Rightarrow> 'a list \<Rightarrow> nat \<Rightarrow> bool" where
  "last_greatest f xs i \<longleftrightarrow>
     i < length xs \<and>
     list_all (\<lambda>j. f (xs ! j) \<le> f (xs ! i)) [0..<length xs] \<and>
     list_all (\<lambda>j. f (xs ! j) < f (xs ! i)) [Suc i..<length xs]"

text \<open>The loan resolver as the specification words it: resolve each reference of
  \<^verbatim>\<open>artifact.loans\<close> in list order, drop the references that do not resolve, take the
  first record whose status is \<^verbatim>\<open>ACTIVE\<close>.\<close>

definition resolved_loans :: "store \<Rightarrow> string list \<Rightarrow> loan list" where
  "resolved_loans s lids =
     List.map_filter
       (\<lambda>lid. case map_of (collection_of s ''loans'') lid of
                Some (VLoan l) \<Rightarrow> Some l
              | _ \<Rightarrow> None) lids"

definition first_active_loan :: "store \<Rightarrow> artifact \<Rightarrow> loan option" where
  "first_active_loan s a = find (\<lambda>l. status l = ''ACTIVE'') (resolved_loans s (loans a))"

text \<open>The conservation records an artifact refers to, without the references that do not
  resolve.\<close>

definition resolved_conservations :: "store \<Rightarrow> string list \<Rightarrow> conservation_record list" where
  "resolved_conservations s cids =
     List.map_filter
       (\<lambda>cid. case map_of (collection_of s ''conservations'') cid of
                Some (VConservation c) \<Rightarrow> Some c
              | _ \<Rightarrow> None) cids"

section \<open>Sample objects\<close>

text \<open>Objects like those the demo builds, used to run the operations on concrete
  inputs.\<close>

text \<open>The strings of the sample objects are ASCII. On an ASCII string
  \<^verbatim>\<open>str.lower()\<close> replaces the letters \<^verbatim>\<open>A\<close> to \<^verbatim>\<open>Z\<close> by \<^verbatim>\<open>a\<close> to
  \<^verbatim>\<open>z\<close> and keeps every other character: that is \<open>ascii_lower\<close>, which stands for
  the parameter \<open>lw\<close> wherever an operation is run on the sample objects.\<close>

definition ascii_lower_char :: "char \<Rightarrow> char" where
  "ascii_lower_char c =
     (if CHR ''A'' \<le> c \<and> c \<le> CHR ''Z'' then char_of (of_char c + (32::nat)) else c)"

definition ascii_lower :: "string \<Rightarrow> string" where
  "ascii_lower s = map ascii_lower_char s"

definition mk_version :: "string \<Rightarrow> string \<Rightarrow> artifact_version" where
  "mk_version i t =
     \<lparr>version_id = i, timestamp = t, notes = ''Initial catalog entry'',
      snapshot = [(''condition'', SStr ''fair'')]\<rparr>"

definition mk_loan :: "string \<Rightarrow> string \<Rightarrow> loan" where
  "mk_loan i st =
     \<lparr>loan_id = i, loan_artifact_id = ''art_1'', from_inst = ''inst_1'', to_inst = ''inst_2'',
      start_date = ''2024-01-10'', end_date = ''2024-04-10'', status = st\<rparr>"

definition mk_conservation :: "string \<Rightarrow> string \<Rightarrow> conservation_record" where
  "mk_conservation i d =
     \<lparr>record_id = i, date = d, restorer_id = ''person_1'',
      treatment = ''cleaning and varnish removal'', before_surrogates = [''dig_1''],
      after_surrogates = []\<rparr>"

definition mk_artifact ::
  "string \<Rightarrow> string \<Rightarrow> string option \<Rightarrow> artifact_version list \<Rightarrow> string list \<Rightarrow> string list
   \<Rightarrow> artifact" where
  "mk_artifact i t m vs crs ls =
     \<lparr>artifact_id = i, title = t, creator = ''Unknown Artist'', date_created = ''1784-01-01'',
      material = m, dimensions = Some [(''h_cm'', SInt 120), (''w_cm'', SInt 90)],
      provenance = [], versions = vs, digital_surrogates = [''dig_1''],
      conservation_records = crs, loans = ls\<rparr>"

definition marina :: artifact where
  "marina =
     mk_artifact ''art_1'' ''Portrait of Marina'' (Some ''oil on canvas'')
       [mk_version ''ver_1'' ''t1'', mk_version ''ver_2'' ''t3'', mk_version ''ver_3'' ''t2'']
       [''cons_0'', ''cons_1'', ''cons_2''] [''loan_0'', ''loan_1'', ''loan_2'', ''loan_3'']"

definition icon :: artifact where
  "icon = mk_artifact ''art_2'' ''Icon of the Archangel'' (Some ''tempera'') [] [] []"

text \<open>A new store after \<^verbatim>\<open>put('artifacts', 'art_1', marina)\<close>, and the store with both
  artifacts, three loans and two conservation records; \<^verbatim>\<open>loan_0\<close> and
  \<^verbatim>\<open>cons_0\<close> are stored nowhere.\<close>

definition store1 :: store where
  "store1 = snd (put ascii_lower (open_db Map.empty) ''artifacts'' ''art_1'' (VArtifact marina))"

definition store2 :: store where
  "store2 =
     (open_db Map.empty)
       (''artifacts'' \<mapsto> [(''art_1'', VArtifact marina), (''art_2'', VArtifact icon)],
        ''loans'' \<mapsto> [(''loan_1'', VLoan (mk_loan ''loan_1'' ''COMPLETED'')),
                      (''loan_2'', VLoan (mk_loan ''loan_2'' ''ACTIVE'')),
                      (''loan_3'', VLoan (mk_loan ''loan_3'' ''ACTIVE''))],
        ''conservations'' \<mapsto>
           [(''cons_1'', VConservation (mk_conservation ''cons_1'' ''2023-08-15'')),
            (''cons_2'', VConservation (mk_conservation ''cons_2'' ''2021-11-02''))])"

text \<open>An artifact whose only loan references dangle or are completed.\<close>

definition vase :: artifact where
  "vase = mk_artifact ''art_4'' ''Vase'' None [] [] [''loan_0'', ''loan_1'']"

text \<open>An artifact whose material is the empty string, alone in a store.\<close>

definition fragment :: artifact where
  "fragment = mk_artifact ''art_3'' ''Fragment'' (Some []) [] [] []"

definition store3 :: store where
  "store3 = (open_db Map.empty)(''artifacts'' \<mapsto> [(''art_3'', VArtifact fragment)])"

section \<open>The last element of a stable sort\<close>

lemma last_insort_key:
  "ys \<noteq> [] \<Longrightarrow> sorted (map f ys) \<Longrightarrow>
   last (insort_key f x ys) = (if f (last ys) < f x then x else last ys)"
proof (induction ys)
  case Nil
  then show ?case by simp
next
  case (Cons y ys)
  show ?case
  proof (cases "ys = []")
    case True
    then show ?thesis by auto
  next
    case False
    with Cons have IH: "last (insort_key f x ys) = (if f (last ys) < f x then x else last ys)"
      by simp
    from Cons.prems False have "f y \<le> f (last ys)" by simp
    with False IH show ?thesis by auto
  qed
qed

lemma sort_key_eq_Nil: "sort_key f xs = [] \<longleftrightarrow> xs = []"
  using length_sort [of f xs] by (metis length_0_conv)

lemma last_sort_key_Cons:
  "xs \<noteq> [] \<Longrightarrow>
   last (sort_key f (x # xs)) =
     (if f (last (sort_key f xs)) < f x then x else last (sort_key f xs))"
  using last_insort_key [of "sort_key f xs" f x] by (simp add: sort_key_eq_Nil)

lemma last_greatest_iff:
  "last_greatest f xs i \<longleftrightarrow>
     i < length xs \<and> (\<forall>j < length xs. f (xs ! j) \<le> f (xs ! i)) \<and>
     (\<forall>j < length xs. i < j \<longrightarrow> f (xs ! j) < f (xs ! i))"
  by (auto simp: last_greatest_def list_all_iff)

lemma last_greatest_unique:
  "last_greatest f xs i \<Longrightarrow> last_greatest f xs j \<Longrightarrow> i = j"
  unfolding last_greatest_iff by (metis linorder_neqE_nat not_le)

lemma last_sort_key_index:
  "xs \<noteq> [] \<Longrightarrow> \<exists>i. last_greatest f xs i \<and> last (sort_key f xs) = xs ! i"
proof (induction xs)
  case Nil
  then show ?case by simp
next
  case (Cons x xs)
  show ?case
  proof (cases "xs = []")
    case True
    then have "last_greatest f (x # xs) 0 \<and> last (sort_key f (x # xs)) = (x # xs) ! 0"
      by (simp add: last_greatest_iff)
    then show ?thesis by blast
  next
    case False
    with Cons.IH obtain i where i: "last_greatest f xs i" and l: "last (sort_key f xs) = xs ! i"
      by blast
    show ?thesis
    proof (cases "f (xs ! i) < f x")
      case True
      have "last_greatest f (x # xs) 0"
        unfolding last_greatest_iff
      proof (intro conjI allI impI)
        show "0 < length (x # xs)" by simp
      next
        fix j assume "j < length (x # xs)"
        then show "f ((x # xs) ! j) \<le> f ((x # xs) ! 0)"
          using i True by (cases j) (auto simp: last_greatest_iff intro: less_imp_le le_less_trans)
      next
        fix j assume "j < length (x # xs)" "0 < j"
        then show "f ((x # xs) ! j) < f ((x # xs) ! 0)"
          using i True by (cases j) (auto simp: last_greatest_iff intro: le_less_trans)
      qed
      moreover have "last (sort_key f (x # xs)) = (x # xs) ! 0"
        using last_sort_key_Cons [OF False, of f x] True l by (simp del: sort_key_simps)
      ultimately show ?thesis by blast
    next
      case nless: False
      have "last_greatest f (x # xs) (Suc i)"
        unfolding last_greatest_iff
      proof (intro conjI allI impI)
        show "Suc i < length (x # xs)" using i by (simp add: last_greatest_iff)
      next
        fix j assume "j < length (x # xs)"
        then show "f ((x # xs) ! j) \<le> f ((x # xs) ! Suc i)"
          using i nless by (cases j) (auto simp: last_greatest_iff)
      next
        fix j assume "j < length (x # xs)" "Suc i < j"
        then show "f ((x # xs) ! j) < f ((x # xs) ! Suc i)"
          using i by (cases j) (auto simp: last_greatest_iff)
      qed
      moreover have "last (sort_key f (x # xs)) = (x # xs) ! Suc i"
        using last_sort_key_Cons [OF False, of f x] nless l by (simp del: sort_key_simps)
      ultimately show ?thesis by blast
    qed
  qed
qed

section \<open>Facts about the store operations\<close>

lemma ensure_collections_apply:
  "ensure_collections cols s c = (if c \<in> set cols \<and> s c = None then Some [] else s c)"
  by (induction cols arbitrary: s) auto

lemma indexes_in_names: "''indexes'' \<in> set collection_names"
  by (simp add: collection_names_def)

lemma artifacts_in_names: "''artifacts'' \<in> set collection_names"
  by (simp add: collection_names_def)

lemma loans_in_names: "''loans'' \<in> set collection_names"
  by (simp add: collection_names_def)

lemma ensure_indexes:
  "ensure_collections collection_names f ''indexes'' =
     (case f ''indexes'' of None \<Rightarrow> Some [] | Some ix \<Rightarrow> Some ix)"
  by (simp add: ensure_collections_apply indexes_in_names split: option.splits)

lemma open_db_indexes:
  "open_db f ''indexes'' =
        (case f ''indexes'' of
           None \<Rightarrow> Some [(''by_title'', VDict [])]
         | Some ix \<Rightarrow>
             if map_of ix ''by_title'' = None
             then Some (AList.update ''by_title'' (VDict []) ix) else Some ix)"
  by (simp add: open_db_def Let_def ensure_indexes split: option.splits)

lemma open_db_other:
  "c \<noteq> ''indexes'' \<Longrightarrow>
   open_db f c = (if c \<in> set collection_names \<and> f c = None then Some [] else f c)"
  by (simp add: open_db_def Let_def ensure_indexes ensure_collections_apply split: option.splits)

lemma open_db_present: "c \<in> set collection_names \<Longrightarrow> open_db f c \<noteq> None"
  by (cases "c = ''indexes''") (simp_all add: open_db_indexes open_db_other split: option.splits)

lemma title_index_open_db:
  "title_index (open_db f) =
     (case title_index f of None \<Rightarrow> Some (VDict []) | Some v \<Rightarrow> Some v)"
  by (simp add: title_index_def open_db_indexes update_Some_unfold split: option.splits)

lemma opened_open_db: "opened (open_db f)"
  using open_db_present [of _ f]
  by (auto simp: opened_def title_index_open_db list_all_iff split: option.splits)

lemma opened_fixed: "opened s \<Longrightarrow> open_db s = s"
proof (rule ext)
  fix c assume o: "opened s"
  show "open_db s c = s c"
  proof (cases "c = ''indexes''")
    case True
    with o show ?thesis
      by (auto simp: opened_def title_index_def open_db_indexes split: option.splits)
  next
    case False
    with o show ?thesis
      by (auto simp: opened_def list_all_iff open_db_other)
  qed
qed

lemma open_db_idem: "open_db (open_db f) = open_db f"
  by (rule opened_fixed) (rule opened_open_db)

lemma open_db_keeps_records:
  "f c = Some d \<Longrightarrow> map_of d k = Some v \<Longrightarrow> map_of (collection_of (open_db f) c) k = Some v"
  by (cases "c = ''indexes''")
     (auto simp: collection_of_def open_db_indexes open_db_other update_Some_unfold)

lemma open_db_dom: "dom (open_db f) = dom f \<union> set collection_names"
proof (rule set_eqI)
  fix c
  show "c \<in> dom (open_db f) \<longleftrightarrow> c \<in> dom f \<union> set collection_names"
    using indexes_in_names
    by (cases "c = ''indexes''")
       (auto simp: open_db_indexes open_db_other dom_def split: option.splits if_splits)
qed

lemma put_absent: "s c = None \<Longrightarrow> put lw s c k v = (Inl KeyError, s)"
  by (simp add: put_def)

lemma put_other:
  "s c = Some col \<Longrightarrow> c \<noteq> ''artifacts'' \<Longrightarrow>
   put lw s c k v = (Inr (), s(c \<mapsto> AList.update k v col))"
  by (simp add: put_def save_def)

lemma put_artifacts_collection:
  "s ''artifacts'' = Some col \<Longrightarrow>
   snd (put lw s ''artifacts'' k v) ''artifacts'' = Some (AList.update k v col)"
  by (simp add: put_def save_def setdefault_def Let_def
      split: option.splits sum.splits pyval.splits prod.splits)

lemma put_artifacts_ok:
  "s ''artifacts'' = Some col \<Longrightarrow> s ''indexes'' = Some ix \<Longrightarrow>
   map_of ix ''by_title'' = Some (VDict d) \<Longrightarrow>
   put lw s ''artifacts'' k (VArtifact a) =
     (Inr (), s(''artifacts'' \<mapsto> AList.update k (VArtifact a) col,
                ''indexes'' \<mapsto> AList.update ''by_title''
                   (VDict (AList.update (lw (title a)) (VStr k) d)) ix))"
  by (simp add: put_def save_def setdefault_def Let_def)

lemma put_dom: "dom (snd (put lw s c k v)) = dom s"
  by (auto simp add: put_def save_def setdefault_def Let_def
      split: option.splits sum.splits pyval.splits prod.splits if_splits)

lemma get_after_put:
  assumes "s c = Some col"
  shows "get (snd (put lw s c k r)) c (VStr k) = Inr r"
proof (cases "c = ''artifacts''")
  case True
  with assms show ?thesis
    using put_artifacts_collection [where s = s and col = col and k = k and v = r and lw = lw]
    by (simp add: get_def dict_lookup_def update_conv)
next
  case False
  with assms show ?thesis
    by (simp add: put_other get_def dict_lookup_def update_conv)
qed

lemma reachable_dom: "reachable lw s \<Longrightarrow> dom s = set collection_names"
  by (induction rule: reachable.induct) (auto simp: open_db_dom put_dom)

lemma title_index_SomeD:
  "title_index s = Some w \<Longrightarrow> \<exists>ix. s ''indexes'' = Some ix \<and> map_of ix ''by_title'' = Some w"
  by (simp add: title_index_def split: option.splits)

lemma put_artifacts_unfold:
  assumes "s ''artifacts'' = Some col" and "s ''indexes'' = Some ix"
    and "map_of ix ''by_title'' = Some w"
  shows "put lw s ''artifacts'' k v =
     (case attr_title v of
        Inl e \<Rightarrow> (Inl e, s(''artifacts'' \<mapsto> AList.update k v col))
      | Inr t \<Rightarrow>
          (case w of
             VDict d \<Rightarrow>
               (Inr (), s(''artifacts'' \<mapsto> AList.update k v col,
                          ''indexes'' \<mapsto> AList.update ''by_title''
                             (VDict (AList.update (lw t) (VStr k) d)) ix))
           | _ \<Rightarrow> (Inl TypeError, s(''artifacts'' \<mapsto> AList.update k v col))))"
proof -
  have sd: "setdefault ix ''by_title'' (VDict []) = (w, ix)"
    using assms(3) by (simp add: setdefault_def)
  have same: "(s(''artifacts'' \<mapsto> AList.update k v col))(''indexes'' \<mapsto> ix) =
              s(''artifacts'' \<mapsto> AList.update k v col)"
    using assms(2) by (intro ext) simp
  show ?thesis
    using assms(1,2)
    by (simp add: put_def Let_def sd same save_def split: sum.splits pyval.splits)
qed

lemma title_index_put_artifacts:
  assumes "s ''artifacts'' = Some col" and "title_index s = Some w"
  shows "title_index (snd (put lw s ''artifacts'' k v)) =
     Some (case attr_title v of
             Inl e \<Rightarrow> w
           | Inr t \<Rightarrow>
               (case w of VDict d \<Rightarrow> VDict (AList.update (lw t) (VStr k) d) | _ \<Rightarrow> w))"
proof -
  from assms(2) obtain ix where ix: "s ''indexes'' = Some ix" "map_of ix ''by_title'' = Some w"
    using title_index_SomeD by blast
  show ?thesis
    unfolding put_artifacts_unfold [OF assms(1) ix]
    using ix by (cases "attr_title v"; cases w) (simp_all add: title_index_def update_conv)
qed

lemma title_index_put_other:
  assumes "c \<noteq> ''artifacts''"
  shows "title_index (snd (put lw s c k v)) =
     (if c = ''indexes'' \<and> k = ''by_title'' \<and> s ''indexes'' \<noteq> None then Some v
      else title_index s)"
proof (cases "s c")
  case None
  then show ?thesis by (auto simp: put_absent)
next
  case (Some col)
  with assms show ?thesis
    by (simp add: put_other title_index_def update_conv)
qed

lemma title_index_put:
  assumes "title_index s \<noteq> None"
  shows "title_index (snd (put lw s c k v)) \<noteq> None"
proof (cases "c = ''artifacts''")
  case True
  show ?thesis
  proof (cases "s ''artifacts''")
    case None
    with True assms show ?thesis by (simp add: put_absent)
  next
    case (Some col)
    from assms obtain w where "title_index s = Some w" by blast
    with Some True show ?thesis by (simp add: title_index_put_artifacts)
  qed
next
  case False
  with assms show ?thesis by (simp add: title_index_put_other)
qed

lemma opened_put: "opened s \<Longrightarrow> opened (snd (put lw s c k v))"
  using put_dom [of lw s c k v] title_index_put [where s = s and c = c and k = k and v = v and lw = lw]
  by (auto simp: opened_def list_all_iff dom_def)

lemma opened_collection:
  "opened s \<Longrightarrow> c \<in> set collection_names \<Longrightarrow> \<exists>col. s c = Some col"
  by (auto simp: opened_def list_all_iff)

lemma put_returns:
  assumes "opened s" and "c \<in> set collection_names"
    and "c = ''artifacts'' \<longrightarrow> is_artifact r \<and> (\<exists>d. title_index s = Some (VDict d))"
  shows "fst (put lw s c k r) = Inr ()"
proof (cases "c = ''artifacts''")
  case True
  from assms(1) obtain col where col: "s ''artifacts'' = Some col"
    using opened_collection artifacts_in_names by blast
  from True assms(3) obtain a d where r: "r = VArtifact a" and d: "title_index s = Some (VDict d)"
    by (cases r) auto
  from d obtain ix where "s ''indexes'' = Some ix" "map_of ix ''by_title'' = Some (VDict d)"
    using title_index_SomeD by blast
  with col r True show ?thesis by (simp add: put_artifacts_ok)
next
  case False
  from assms(1,2) obtain col where "s c = Some col" using opened_collection by blast
  with False show ?thesis by (simp add: put_other)
qed

lemma put_artifact_index:
  assumes "opened s" and "title_index s = Some (VDict d)"
  shows "fst (put lw s ''artifacts'' k (VArtifact a)) = Inr () \<and>
         title_index (snd (put lw s ''artifacts'' k (VArtifact a))) =
           Some (VDict (AList.update (lw (title a)) (VStr k) d))"
proof -
  from assms(1) obtain col where col: "s ''artifacts'' = Some col"
    using opened_collection artifacts_in_names by blast
  have "fst (put lw s ''artifacts'' k (VArtifact a)) = Inr ()"
    using put_returns [OF assms(1) artifacts_in_names, where r = "VArtifact a" and k = k and lw = lw]
      assms(2) by simp
  moreover have "title_index (snd (put lw s ''artifacts'' k (VArtifact a))) =
           Some (VDict (AList.update (lw (title a)) (VStr k) d))"
    using title_index_put_artifacts [OF col assms(2), where k = k and v = "VArtifact a" and lw = lw]
    by simp
  ultimately show ?thesis by simp
qed

lemma put_leaves_collection:
  assumes "c \<noteq> c'" and "c \<noteq> ''indexes''"
  shows "snd (put lw s c' k v) c = s c"
proof (cases "s c'")
  case None
  then show ?thesis by (simp add: put_absent)
next
  case (Some col)
  show ?thesis
  proof (cases "c' = ''artifacts''")
    case False
    with Some assms show ?thesis by (simp add: put_other)
  next
    case True
    with Some assms show ?thesis
      by (simp add: put_def Let_def setdefault_def save_def
          split: option.splits sum.splits pyval.splits)
  qed
qed

lemma put_collection:
  assumes "s c = Some col" and "c \<noteq> ''indexes''"
  shows "snd (put lw s c k v) c = Some (AList.update k v col)"
proof (cases "c = ''artifacts''")
  case True
  with assms show ?thesis by (simp add: put_artifacts_collection)
next
  case False
  with assms show ?thesis by (simp add: put_other)
qed

section \<open>Facts about the query and the resolvers\<close>

lemma scan_materials_artifacts:
  "list_all is_artifact vs \<Longrightarrow>
   scan_materials lw m vs =
     Inr (filter (\<lambda>v. \<exists>a mt. v = VArtifact a \<and> material a = Some mt \<and> mt \<noteq> [] \<and>
                           sublist (lw m) (lw mt)) vs)"
proof (induction vs)
  case Nil
  then show ?case by simp
next
  case (Cons v vs)
  from Cons.prems obtain a where v: "v = VArtifact a" by (cases v) auto
  from Cons have IH: "scan_materials lw m vs =
     Inr (filter (\<lambda>v. \<exists>a mt. v = VArtifact a \<and> material a = Some mt \<and> mt \<noteq> [] \<and>
                           sublist (lw m) (lw mt)) vs)" by simp
  show ?case
    by (cases "material a") (simp_all add: v IH material_matches_def)
qed

lemma query_artifacts_typed:
  assumes "s ''artifacts'' = Some d" and "holds_only is_artifact s ''artifacts''"
  shows "query_artifacts_by_material lw s m =
     Inr (filter (\<lambda>v. \<exists>a mt. v = VArtifact a \<and> material a = Some mt \<and> mt \<noteq> [] \<and>
                           sublist (lw m) (lw mt)) (map snd d))"
  using assms
  by (simp add: query_artifacts_by_material_def holds_only_def collection_of_def
      scan_materials_artifacts)

lemma resolve_shelf:
  "resolve (Shelf s) name ident = Inr (dict_lookup (collection_of s name) ident)"
  by (simp add: resolve_def collection_of_def dict_lookup_def split: option.splits)

lemma get_dict_key: "get s name (VDict d) = Inl TypeError"
  by (simp add: get_def)

lemma resolve_oodb: "resolve (SimpleOODB s) name ident = Inl TypeError"
  by (simp add: resolve_def get_dict_key)

lemma holds_onlyD:
  "holds_only P s c \<Longrightarrow> map_of (collection_of s c) k = Some v \<Longrightarrow> P v"
  unfolding holds_only_def list_all_iff
  by (metis imageI list.set_map map_of_SomeD snd_conv)

lemma scan_loans_typed:
  assumes "holds_only is_loan s ''loans''"
  shows "scan_loans (Shelf s) lids =
     Inr (case find (\<lambda>l. status l = ''ACTIVE'') (resolved_loans s lids) of
            None \<Rightarrow> (False, VNone)
          | Some l \<Rightarrow> (True, VLoan l))"
proof (induction lids)
  case Nil
  then show ?case by (simp add: resolved_loans_def)
next
  case (Cons lid lids)
  show ?case
  proof (cases "map_of (collection_of s ''loans'') lid")
    case None
    with Cons show ?thesis
      by (simp add: resolve_shelf dict_lookup_def resolved_loans_def)
  next
    case (Some v)
    with assms have "is_loan v" by (rule holds_onlyD)
    then obtain l where "v = VLoan l" by (cases v) auto
    with Some Cons show ?thesis
      by (simp add: resolve_shelf dict_lookup_def resolved_loans_def)
  qed
qed

lemma find_resolved_None:
  "find (\<lambda>l. status l = ''ACTIVE'') (resolved_loans s lids) = None \<longleftrightarrow>
     (\<forall>lid \<in> set lids. \<forall>l. map_of (collection_of s ''loans'') lid = Some (VLoan l) \<longrightarrow>
        status l \<noteq> ''ACTIVE'')"
proof (induction lids)
  case Nil
  then show ?case by (simp add: resolved_loans_def)
next
  case (Cons lid lids)
  then show ?case
    by (auto simp: resolved_loans_def split: option.splits pyval.splits)
qed

lemma find_resolved_Some:
  "find (\<lambda>l. status l = ''ACTIVE'') (resolved_loans s lids) = Some l \<Longrightarrow>
   \<exists>pre lid post. lids = pre @ lid # post \<and>
      map_of (collection_of s ''loans'') lid = Some (VLoan l) \<and> status l = ''ACTIVE'' \<and>
      (\<forall>x \<in> set pre. \<forall>l'. map_of (collection_of s ''loans'') x = Some (VLoan l') \<longrightarrow>
         status l' \<noteq> ''ACTIVE'')"
proof (induction lids)
  case Nil
  then show ?case by (simp add: resolved_loans_def)
next
  case (Cons x lids)
  let ?here = "\<exists>l'. map_of (collection_of s ''loans'') x = Some (VLoan l') \<and> status l' = ''ACTIVE''"
  show ?case
  proof (cases ?here)
    case True
    then obtain l' where l': "map_of (collection_of s ''loans'') x = Some (VLoan l')"
      "status l' = ''ACTIVE''" by blast
    with Cons.prems have "l' = l" by (simp add: resolved_loans_def)
    with l' have "x # lids = [] @ x # lids \<and>
      map_of (collection_of s ''loans'') x = Some (VLoan l) \<and> status l = ''ACTIVE'' \<and>
      (\<forall>y \<in> set []. \<forall>l'. map_of (collection_of s ''loans'') y = Some (VLoan l') \<longrightarrow>
         status l' \<noteq> ''ACTIVE'')" by simp
    then show ?thesis by blast
  next
    case False
    with Cons.prems have "find (\<lambda>l. status l = ''ACTIVE'') (resolved_loans s lids) = Some l"
      by (auto simp: resolved_loans_def split: option.splits pyval.splits if_splits)
    with Cons.IH obtain pre lid post where p: "lids = pre @ lid # post"
      "map_of (collection_of s ''loans'') lid = Some (VLoan l)" "status l = ''ACTIVE''"
      "\<forall>y \<in> set pre. \<forall>l'. map_of (collection_of s ''loans'') y = Some (VLoan l') \<longrightarrow>
         status l' \<noteq> ''ACTIVE''" by blast
    with False have "x # lids = (x # pre) @ lid # post \<and>
      map_of (collection_of s ''loans'') lid = Some (VLoan l) \<and> status l = ''ACTIVE'' \<and>
      (\<forall>y \<in> set (x # pre). \<forall>l'. map_of (collection_of s ''loans'') y = Some (VLoan l') \<longrightarrow>
         status l' \<noteq> ''ACTIVE'')" by auto
    then show ?thesis by blast
  qed
qed

lemma is_on_loan_typed:
  assumes "holds_only is_loan s ''loans''"
  shows "is_on_loan a (Shelf s) =
     Inr (case first_active_loan s a of None \<Rightarrow> (False, VNone) | Some l \<Rightarrow> (True, VLoan l))"
  by (simp add: is_on_loan_def first_active_loan_def scan_loans_typed [OF assms])

lemma resolve_all_shelf:
  "resolve_all (Shelf s) name cids = Inr (map (dict_lookup (collection_of s name)) cids)"
  by (induction cids) (simp_all add: resolve_shelf)

lemma resolve_all_oodb:
  "cids \<noteq> [] \<Longrightarrow> resolve_all (SimpleOODB s) name cids = Inl TypeError"
  by (cases cids) (simp_all add: resolve_oodb)

lemma conservations_of_typed:
  assumes "holds_only is_conservation s ''conservations''"
  shows "conservations_of
           (filter truthy (map (dict_lookup (collection_of s ''conservations'')) cids)) =
         Inr (resolved_conservations s cids)"
proof (induction cids)
  case Nil
  then show ?case by (simp add: resolved_conservations_def)
next
  case (Cons cid cids)
  show ?case
  proof (cases "map_of (collection_of s ''conservations'') cid")
    case None
    with Cons show ?thesis
      by (simp add: dict_lookup_def resolved_conservations_def)
  next
    case (Some v)
    with assms have "is_conservation v" by (rule holds_onlyD)
    then obtain c where "v = VConservation c" by (cases v) auto
    with Some Cons show ?thesis
      by (simp add: dict_lookup_def resolved_conservations_def)
  qed
qed

lemma conservations_of_Nil: "conservations_of vs = Inr [] \<longleftrightarrow> vs = []"
  by (induction vs rule: conservations_of.induct) (auto split: sum.splits)

lemma last_conservation_typed:
  assumes "holds_only is_conservation s ''conservations''"
  shows "last_conservation a (Shelf s) =
     Inr (if resolved_conservations s (conservation_records a) = [] then None
          else Some (last (sort_key date (resolved_conservations s (conservation_records a)))))"
proof (cases "conservation_records a = []")
  case True
  then show ?thesis by (simp add: last_conservation_def resolved_conservations_def)
next
  case False
  let ?crs = "filter truthy
      (map (dict_lookup (collection_of s ''conservations'')) (conservation_records a))"
  have c: "conservations_of ?crs = Inr (resolved_conservations s (conservation_records a))"
    using assms by (rule conservations_of_typed)
  then have e: "?crs = [] \<longleftrightarrow> resolved_conservations s (conservation_records a) = []"
    using conservations_of_Nil [of ?crs] by auto
  show ?thesis
    using False c e
    by (simp add: last_conservation_def resolve_all_shelf Let_def)
qed

lemma display_status_typed:
  assumes "holds_only is_loan s ''loans''"
    and "holds_only is_conservation s ''conservations''"
  shows "display_status a (Shelf s) =
     Inr [(''artifact_id'', VStr (artifact_id a)),
          (''title'', VStr (title a)),
          (''on_loan'', VBool (first_active_loan s a \<noteq> None)),
          (''loan_ref'', opt_str (map_option loan_id (first_active_loan s a))),
          (''current_version'', opt_str (map_option version_id (current_version a))),
          (''last_conservation'', opt_str (map_option record_id
             (if resolved_conservations s (conservation_records a) = [] then None
              else Some (last (sort_key date
                     (resolved_conservations s (conservation_records a)))))))]"
  by (cases "first_active_loan s a")
     (simp_all add: display_status_def is_on_loan_typed [OF assms(1)]
       last_conservation_typed [OF assms(2)] opt_str_def Let_def)

lemma scan_loans_oodb: "lids \<noteq> [] \<Longrightarrow> scan_loans (SimpleOODB s) lids = Inl TypeError"
  by (cases lids) (simp_all add: resolve_oodb)

lemma is_on_loan_oodb_empty: "loans a = [] \<Longrightarrow> is_on_loan a st = Inr (False, VNone)"
  by (simp add: is_on_loan_def)

section \<open>Typed collections\<close>

text \<open>The properties of the resolvers and of the query are stated over collections that
  hold records of their entity type. A new store has such collections, and a
  \<^verbatim>\<open>put\<close> keeps them so as long as the object written to the collection is of its
  type, whatever is written to the other collections.\<close>

lemma values_update:
  "set (map snd (AList.update k v al)) \<subseteq> insert v (set (map snd al))"
  by (induction al) auto

lemma holds_only_open_db:
  assumes "holds_only P f c" and "c \<noteq> ''indexes''"
  shows "holds_only P (open_db f) c"
  using assms by (simp add: holds_only_def collection_of_def open_db_other)

lemma holds_only_put:
  assumes "holds_only P s c" and "c' = c \<longrightarrow> P v" and "c \<noteq> ''indexes''"
  shows "holds_only P (snd (put lw s c' k v)) c"
proof (cases "c' = c")
  case False
  with assms show ?thesis
    by (simp add: holds_only_def collection_of_def put_leaves_collection)
next
  case True
  show ?thesis
  proof (cases "s c")
    case None
    with True assms(1) show ?thesis by (simp add: put_absent)
  next
    case (Some col)
    with assms(1) have "\<forall>x \<in> set (map snd col). P x"
      by (simp add: holds_only_def collection_of_def list_all_iff)
    with True assms(2) values_update [of k v col]
    have "\<forall>x \<in> set (map snd (AList.update k v col)). P x" by blast
    with True Some assms(3) show ?thesis
      by (simp add: holds_only_def collection_of_def put_collection list_all_iff)
  qed
qed

lemma holds_only_fresh: "c \<noteq> ''indexes'' \<Longrightarrow> holds_only P (open_db Map.empty) c"
  by (simp add: holds_only_def collection_of_def open_db_other)

section \<open>Facts about the sample objects\<close>

lemma lower_marina: "ascii_lower ''Portrait of Marina'' = ''portrait of marina''"
  by code_simp

lemma marina_fields:
  "title marina = ''Portrait of Marina''"
  "artifact_id marina = ''art_1''"
  "material marina = Some ''oil on canvas''"
  "versions marina =
     [mk_version ''ver_1'' ''t1'', mk_version ''ver_2'' ''t3'', mk_version ''ver_3'' ''t2'']"
  "conservation_records marina = [''cons_0'', ''cons_1'', ''cons_2'']"
  "loans marina = [''loan_0'', ''loan_1'', ''loan_2'', ''loan_3'']"
  by (simp_all add: marina_def mk_artifact_def)

lemma fresh_collections:
  "open_db Map.empty ''artifacts'' = Some []"
  "open_db Map.empty ''loans'' = Some []"
  "open_db Map.empty ''conservations'' = Some []"
  "open_db Map.empty ''indexes'' = Some [(''by_title'', VDict [])]"
  by (simp_all add: open_db_indexes open_db_other collection_names_def)

lemma store1_eq:
  "store1 = (open_db Map.empty)
     (''artifacts'' \<mapsto> [(''art_1'', VArtifact marina)],
      ''indexes'' \<mapsto> [(''by_title'', VDict [(''portrait of marina'', VStr ''art_1'')])])"
  unfolding store1_def
  by (simp add: put_artifacts_ok [where d = "[]"] fresh_collections marina_fields lower_marina)

lemma store1_artifacts: "store1 ''artifacts'' = Some [(''art_1'', VArtifact marina)]"
  by (simp add: store1_eq)

lemma store1_index:
  "title_index store1 = Some (VDict [(''portrait of marina'', VStr ''art_1'')])"
  by (simp add: store1_eq title_index_def)

lemma opened_store1: "opened store1"
  unfolding store1_def by (intro opened_put opened_open_db)

lemma versions_marina_greatest:
  "last_greatest timestamp (versions marina) i \<longleftrightarrow> i = 1"
  by (auto simp: last_greatest_def marina_fields mk_version_def less_Suc_eq nth_Cons')

lemma store1_indexes:
  "store1 ''indexes'' = Some [(''by_title'', VDict [(''portrait of marina'', VStr ''art_1'')])]"
  by (simp add: store1_eq)

lemma lower_icon: "ascii_lower ''Icon of the Archangel'' = ''icon of the archangel''"
  by code_simp

lemma icon_fields:
  "title icon = ''Icon of the Archangel''"
  "artifact_id icon = ''art_2''"
  "material icon = Some ''tempera''"
  "versions icon = []"
  "conservation_records icon = []"
  "loans icon = []"
  by (simp_all add: icon_def mk_artifact_def)

lemma store2_artifacts:
  "store2 ''artifacts'' = Some [(''art_1'', VArtifact marina), (''art_2'', VArtifact icon)]"
  by (simp add: store2_def)

lemma store2_loans:
  "store2 ''loans'' = Some [(''loan_1'', VLoan (mk_loan ''loan_1'' ''COMPLETED'')),
                      (''loan_2'', VLoan (mk_loan ''loan_2'' ''ACTIVE'')),
                      (''loan_3'', VLoan (mk_loan ''loan_3'' ''ACTIVE''))]"
  by (simp add: store2_def)

lemma store2_conservations:
  "store2 ''conservations'' =
     Some [(''cons_1'', VConservation (mk_conservation ''cons_1'' ''2023-08-15'')),
           (''cons_2'', VConservation (mk_conservation ''cons_2'' ''2021-11-02''))]"
  by (simp add: store2_def)

lemma store2_typed:
  "holds_only is_artifact store2 ''artifacts''"
  "holds_only is_loan store2 ''loans''"
  "holds_only is_conservation store2 ''conservations''"
  by (simp_all add: holds_only_def collection_of_def store2_artifacts store2_loans
      store2_conservations)

lemma oil_matches:
  "ascii_lower ''oil'' = ''oil''" "ascii_lower ''oil on canvas'' = ''oil on canvas''"
  "ascii_lower ''tempera'' = ''tempera''"
  "sublist ''oil'' ''oil on canvas''" "\<not> sublist ''oil'' ''tempera''"
  by code_simp+

lemma marina_neq_icon: "marina \<noteq> icon"
  by (simp add: marina_def icon_def mk_artifact_def)

lemma store3_artifacts: "store3 ''artifacts'' = Some [(''art_3'', VArtifact fragment)]"
  by (simp add: store3_def)

lemma fragment_material: "material fragment = Some []"
  by (simp add: fragment_def mk_artifact_def)

lemma marina_first_active:
  "first_active_loan store2 marina = Some (mk_loan ''loan_2'' ''ACTIVE'')"
  by (simp add: first_active_loan_def resolved_loans_def collection_of_def store2_loans
      marina_fields mk_loan_def)

lemma icon_first_active: "first_active_loan store2 icon = None"
  by (simp add: first_active_loan_def resolved_loans_def icon_fields)

lemma vase_first_active: "first_active_loan store2 vase = None"
  by (simp add: first_active_loan_def resolved_loans_def collection_of_def store2_loans
      vase_def mk_artifact_def mk_loan_def)

lemma marina_on_loan:
  "is_on_loan marina (Shelf store2) = Inr (True, VLoan (mk_loan ''loan_2'' ''ACTIVE''))"
  by (simp add: is_on_loan_typed [OF store2_typed(2)] marina_first_active)

lemma marina_current_version: "current_version marina = Some (mk_version ''ver_2'' ''t3'')"
  by (simp add: current_version_def marina_fields mk_version_def)

lemma marina_resolved_conservations:
  "resolved_conservations store2 (conservation_records marina) =
     [mk_conservation ''cons_1'' ''2023-08-15'', mk_conservation ''cons_2'' ''2021-11-02'']"
  by (simp add: resolved_conservations_def collection_of_def store2_conservations marina_fields)

lemma marina_conservations_greatest:
  "last_greatest date
     [mk_conservation ''cons_1'' ''2023-08-15'', mk_conservation ''cons_2'' ''2021-11-02''] i
   \<longleftrightarrow> i = 0"
  by (auto simp: last_greatest_def mk_conservation_def less_Suc_eq nth_Cons')

lemma tie_greatest:
  "last_greatest timestamp
     [mk_version ''ver_a'' ''t3'', mk_version ''ver_b'' ''t1'', mk_version ''ver_c'' ''t3''] i
   \<longleftrightarrow> i = 2"
  by (auto simp: last_greatest_def mk_version_def less_Suc_eq nth_Cons')

lemma store1_index_broken:
  "snd (put ascii_lower store1 ''indexes'' ''by_title'' VNone) =
     store1(''indexes'' \<mapsto> [(''by_title'', VNone)])"
  using put_other [where s = store1 and c = "''indexes''" and k = "''by_title''"
      and v = VNone and lw = ascii_lower] store1_indexes
  by simp

section \<open>The claims\<close>

text \<open>
  Claim C3. \<^verbatim>\<open>current_version()\<close> returns \<^verbatim>\<open>None\<close> for an artifact without versions.
  Otherwise it returns the version at the one position of the versions list that carries
  the greatest timestamp (in the lexicographic order of strings) and is followed only by
  strictly smaller timestamps: among equal greatest timestamps the last in insertion order.
  For timestamps \<^verbatim>\<open>t1\<close>, \<^verbatim>\<open>t3\<close>, \<^verbatim>\<open>t2\<close> in that order it is the version
  stamped \<^verbatim>\<open>t3\<close>.
\<close>

theorem current_version_latest:
  "(versions a = [] \<longrightarrow> current_version a = None) \<and>
   (versions a \<noteq> [] \<longrightarrow>
      (\<exists>i. last_greatest timestamp (versions a) i \<and>
           current_version a = Some (versions a ! i))) \<and>
   (\<forall>v1 v2 v3.
      versions a = [v1, v2, v3] \<and> timestamp v1 = ''t1'' \<and> timestamp v2 = ''t3'' \<and>
      timestamp v3 = ''t2'' \<longrightarrow> current_version a = Some v2)"
proof (intro conjI allI impI)
  assume "versions a = []"
  then show "current_version a = None" by (simp add: current_version_def)
next
  assume "versions a \<noteq> []"
  then show "\<exists>i. last_greatest timestamp (versions a) i \<and>
           current_version a = Some (versions a ! i)"
    using last_sort_key_index [of "versions a" timestamp]
    by (simp add: current_version_def)
next
  fix v1 v2 v3
  assume "versions a = [v1, v2, v3] \<and> timestamp v1 = ''t1'' \<and> timestamp v2 = ''t3'' \<and>
      timestamp v3 = ''t2''"
  then show "current_version a = Some v2"
    by (simp add: current_version_def)
qed

theorem current_version_latest_witness:
  "current_version icon = None \<and>
   current_version marina = Some (mk_version ''ver_2'' ''t3'') \<and>
   current_version
     (mk_artifact ''art_5'' ''Diptych'' None
        [mk_version ''ver_a'' ''t3'', mk_version ''ver_b'' ''t1'', mk_version ''ver_c'' ''t3'']
        [] []) = Some (mk_version ''ver_c'' ''t3'')"
proof -
  let ?d = "mk_artifact ''art_5'' ''Diptych'' None
        [mk_version ''ver_a'' ''t3'', mk_version ''ver_b'' ''t1'', mk_version ''ver_c'' ''t3'']
        [] []"
  have "versions icon = []" by (simp add: icon_def mk_artifact_def)
  with current_version_latest [of icon] have 1: "current_version icon = None" by blast
  have "versions marina \<noteq> []" by (simp add: marina_fields)
  with current_version_latest [of marina] obtain i
    where "last_greatest timestamp (versions marina) i"
      and "current_version marina = Some (versions marina ! i)" by blast
  then have 2: "current_version marina = Some (mk_version ''ver_2'' ''t3'')"
    by (simp only: versions_marina_greatest) (simp add: marina_fields)
  have v: "versions ?d =
    [mk_version ''ver_a'' ''t3'', mk_version ''ver_b'' ''t1'', mk_version ''ver_c'' ''t3'']"
    by (simp add: mk_artifact_def)
  then have "versions ?d \<noteq> []" by simp
  with current_version_latest [of ?d] obtain j
    where "last_greatest timestamp (versions ?d) j"
      and "current_version ?d = Some (versions ?d ! j)" by blast
  then have 3: "current_version ?d = Some (mk_version ''ver_c'' ''t3'')"
    unfolding v by (simp only: tie_greatest) simp
  from 1 2 3 show ?thesis by simp
qed

text \<open>
  Claim C6. \<^verbatim>\<open>get\<close> with a string key never raises: it returns the stored record, and
  \<^verbatim>\<open>None\<close> when the collection or the key is missing. Without a key it returns the
  whole collection, the empty dictionary when the collection does not exist.
\<close>

theorem get_never_raises:
  "get s c (VStr k) = Inr (dict_lookup (collection_of s c) k) \<and>
   get s c VNone = Inr (VDict (collection_of s c)) \<and>
   (s c = None \<longrightarrow> get s c (VStr k) = Inr VNone \<and> get s c VNone = Inr (VDict [])) \<and>
   (\<forall>d. s c = Some d \<and> map_of d k = None \<longrightarrow> get s c (VStr k) = Inr VNone) \<and>
   (\<forall>d v. s c = Some d \<and> map_of d k = Some v \<longrightarrow> get s c (VStr k) = Inr v) \<and>
   (\<forall>d. s c = Some d \<longrightarrow> get s c VNone = Inr (VDict d))"
  by (simp add: get_def collection_of_def dict_lookup_def split: option.splits)

theorem get_never_raises_witness:
  "get store1 ''exhibitions'' (VStr ''art_1'') = Inr VNone \<and>
   get store1 ''exhibitions'' VNone = Inr (VDict []) \<and>
   get store1 ''artifacts'' (VStr ''art_9'') = Inr VNone \<and>
   get store1 ''artifacts'' (VStr ''art_1'') = Inr (VArtifact marina) \<and>
   get store1 ''artifacts'' VNone = Inr (VDict [(''art_1'', VArtifact marina)])"
proof -
  have a: "store1 ''exhibitions'' = None"
    by (simp add: store1_eq open_db_other collection_names_def)
  from a get_never_raises [of store1 "''exhibitions''" "''art_1''"]
  have 1: "get store1 ''exhibitions'' (VStr ''art_1'') = Inr VNone"
    and 2: "get store1 ''exhibitions'' VNone = Inr (VDict [])" by blast+
  have "map_of [(''art_1'', VArtifact marina)] ''art_9'' = None" by simp
  with store1_artifacts get_never_raises [of store1 "''artifacts''" "''art_9''"]
  have 3: "get store1 ''artifacts'' (VStr ''art_9'') = Inr VNone" by blast
  have "map_of [(''art_1'', VArtifact marina)] ''art_1'' = Some (VArtifact marina)" by simp
  with store1_artifacts get_never_raises [of store1 "''artifacts''" "''art_1''"]
  have 4: "get store1 ''artifacts'' (VStr ''art_1'') = Inr (VArtifact marina)"
    and 5: "get store1 ''artifacts'' VNone = Inr (VDict [(''art_1'', VArtifact marina)])"
    by blast+
  from 1 2 3 4 5 show ?thesis by simp
qed

text \<open>
  Claim C8. Opening the store makes each of the seven collections exist, empty when it was
  missing, and makes the title index exist under \<^verbatim>\<open>indexes\<close>, empty when it was
  missing. Every record that was present is still there under its key, an existing title
  index is kept as it is, no other collection is touched, and opening a store that has
  been opened changes nothing.
\<close>

theorem open_db_ensures_collections:
  "list_all (\<lambda>c. open_db f c \<noteq> None) collection_names \<and>
   (\<forall>c \<in> set collection_names. f c = None \<and> c \<noteq> ''indexes'' \<longrightarrow> open_db f c = Some []) \<and>
   (f ''indexes'' = None \<longrightarrow> open_db f ''indexes'' = Some [(''by_title'', VDict [])]) \<and>
   title_index (open_db f) \<noteq> None \<and>
   (title_index f = None \<longrightarrow> title_index (open_db f) = Some (VDict [])) \<and>
   (\<forall>c d. f c = Some d \<and> c \<noteq> ''indexes'' \<longrightarrow> open_db f c = Some d) \<and>
   (\<forall>c d k v. f c = Some d \<and> map_of d k = Some v \<longrightarrow> map_of (collection_of (open_db f) c) k = Some v) \<and>
   (\<forall>v. title_index f = Some v \<longrightarrow> title_index (open_db f) = Some v) \<and>
   (\<forall>c. c \<notin> set collection_names \<longrightarrow> open_db f c = f c) \<and>
   open_db (open_db f) = open_db f \<and>
   (opened f \<longrightarrow> open_db f = f)"
proof (intro conjI)
  show "list_all (\<lambda>c. open_db f c \<noteq> None) collection_names"
    using opened_open_db [of f] by (simp add: opened_def)
  show "\<forall>c \<in> set collection_names. f c = None \<and> c \<noteq> ''indexes'' \<longrightarrow> open_db f c = Some []"
    by (simp add: open_db_other)
  show "f ''indexes'' = None \<longrightarrow> open_db f ''indexes'' = Some [(''by_title'', VDict [])]"
    by (simp add: open_db_indexes)
  show "title_index (open_db f) \<noteq> None"
    by (simp add: title_index_open_db split: option.splits)
  show "title_index f = None \<longrightarrow> title_index (open_db f) = Some (VDict [])"
    by (simp add: title_index_open_db)
  show "\<forall>c d. f c = Some d \<and> c \<noteq> ''indexes'' \<longrightarrow> open_db f c = Some d"
    by (simp add: open_db_other)
  show "\<forall>c d k v. f c = Some d \<and> map_of d k = Some v \<longrightarrow>
          map_of (collection_of (open_db f) c) k = Some v"
    using open_db_keeps_records by blast
  show "\<forall>v. title_index f = Some v \<longrightarrow> title_index (open_db f) = Some v"
    by (simp add: title_index_open_db)
  show "\<forall>c. c \<notin> set collection_names \<longrightarrow> open_db f c = f c"
    by (metis indexes_in_names open_db_other)
  show "open_db (open_db f) = open_db f"
    by (rule open_db_idem)
  show "opened f \<longrightarrow> open_db f = f"
    by (simp add: opened_fixed)
qed

theorem open_db_ensures_collections_witness:
  "open_db Map.empty ''loans'' = Some [] \<and>
   open_db Map.empty ''indexes'' = Some [(''by_title'', VDict [])] \<and>
   title_index (open_db Map.empty) = Some (VDict []) \<and>
   open_db store1 ''artifacts'' = Some [(''art_1'', VArtifact marina)] \<and>
   title_index (open_db store1) = Some (VDict [(''portrait of marina'', VStr ''art_1'')]) \<and>
   open_db store1 = store1"
proof -
  note e = open_db_ensures_collections [of Map.empty]
  note p = open_db_ensures_collections [of store1]
  have "''loans'' \<in> set collection_names" by (simp add: collection_names_def)
  with e have 1: "open_db Map.empty ''loans'' = Some []" by simp
  from e have 2: "open_db Map.empty ''indexes'' = Some [(''by_title'', VDict [])]" by simp
  have "title_index Map.empty = None" by (simp add: title_index_def)
  with e have 3: "title_index (open_db Map.empty) = Some (VDict [])" by blast
  from p store1_artifacts
  have 4: "open_db store1 ''artifacts'' = Some [(''art_1'', VArtifact marina)]" by simp
  from p store1_index
  have 5: "title_index (open_db store1) = Some (VDict [(''portrait of marina'', VStr ''art_1'')])"
    by blast
  from p opened_store1 have 6: "open_db store1 = store1" by blast
  from 1 2 3 4 5 6 show ?thesis by simp
qed

text \<open>
  Claim C10. In a store the program can be in, a collection name that is not one of the
  seven is absent; \<^verbatim>\<open>put\<close> into it raises \<^verbatim>\<open>KeyError\<close> and leaves the store as it
  was, while \<^verbatim>\<open>get\<close> from it returns \<^verbatim>\<open>None\<close>.
\<close>

theorem put_missing_collection:
  assumes "reachable lw s" and "C \<notin> set collection_names"
  shows "s C = None \<and> put lw s C k r = (Inl KeyError, s) \<and> get s C (VStr k) = Inr VNone"
proof -
  from assms have "s C = None" using reachable_dom [of lw s] by (auto simp: dom_def)
  then show ?thesis by (simp add: put_absent get_def dict_lookup_def)
qed

theorem put_missing_collection_witness:
  "store1 ''exhibitions'' = None \<and>
   put ascii_lower store1 ''exhibitions'' ''ex_1'' (VArtifact marina) = (Inl KeyError, store1) \<and>
   get store1 ''exhibitions'' (VStr ''ex_1'') = Inr VNone"
proof -
  have "reachable ascii_lower store1"
    unfolding store1_def by (intro reachable.after_put reachable.fresh)
  moreover have "''exhibitions'' \<notin> set collection_names"
    by (simp add: collection_names_def)
  ultimately show ?thesis by (rule put_missing_collection)
qed

text \<open>
  Claim C1. In an opened store, for each of the seven collections \<open>C\<close>, every key
  \<open>k\<close> and every object \<open>r\<close>, \<^verbatim>\<open>get(C, k)\<close> after \<^verbatim>\<open>put(C, k, r)\<close> returns
  exactly \<open>r\<close>. The record is written before anything else happens, so this holds
  whatever the outcome of \<^verbatim>\<open>put\<close>; and \<^verbatim>\<open>put\<close> returns normally for every
  collection but \<^verbatim>\<open>artifacts\<close>, and for \<^verbatim>\<open>artifacts\<close> when \<open>r\<close> is an artifact
  and the title index is a dictionary.
\<close>

theorem put_get_round_trip:
  assumes "opened s" and "C \<in> set collection_names"
  shows "get (snd (put lw s C k r)) C (VStr k) = Inr r \<and>
         ((C = ''artifacts'' \<longrightarrow> is_artifact r \<and> (\<exists>d. title_index s = Some (VDict d)))
            \<longrightarrow> fst (put lw s C k r) = Inr ())"
proof -
  from assms obtain col where "s C = Some col" using opened_collection by blast
  then have "get (snd (put lw s C k r)) C (VStr k) = Inr r" by (rule get_after_put)
  with put_returns [OF assms] show ?thesis by blast
qed

theorem put_get_round_trip_witness:
  "get (snd (put ascii_lower store1 ''loans'' ''loan_2'' (VLoan (mk_loan ''loan_2'' ''ACTIVE''))))
       ''loans'' (VStr ''loan_2'') = Inr (VLoan (mk_loan ''loan_2'' ''ACTIVE'')) \<and>
   fst (put ascii_lower store1 ''loans'' ''loan_2'' (VLoan (mk_loan ''loan_2'' ''ACTIVE''))) = Inr () \<and>
   get (snd (put ascii_lower store1 ''artifacts'' ''art_2'' (VArtifact icon)))
       ''artifacts'' (VStr ''art_2'') = Inr (VArtifact icon) \<and>
   fst (put ascii_lower store1 ''artifacts'' ''art_2'' (VArtifact icon)) = Inr ()"
proof -
  note l = put_get_round_trip [OF opened_store1 loans_in_names,
      where lw = ascii_lower and k = "''loan_2''" and r = "VLoan (mk_loan ''loan_2'' ''ACTIVE'')"]
  note a = put_get_round_trip [OF opened_store1 artifacts_in_names,
      where lw = ascii_lower and k = "''art_2''" and r = "VArtifact icon"]
  have "''loans'' \<noteq> ''artifacts''" by simp
  with l have 1: "get (snd (put ascii_lower store1 ''loans'' ''loan_2'' (VLoan (mk_loan ''loan_2'' ''ACTIVE''))))
       ''loans'' (VStr ''loan_2'') = Inr (VLoan (mk_loan ''loan_2'' ''ACTIVE'')) \<and>
     fst (put ascii_lower store1 ''loans'' ''loan_2'' (VLoan (mk_loan ''loan_2'' ''ACTIVE''))) = Inr ()"
    by blast
  have "is_artifact (VArtifact icon) \<and> (\<exists>d. title_index store1 = Some (VDict d))"
    by (simp add: store1_index)
  with a have 2: "get (snd (put ascii_lower store1 ''artifacts'' ''art_2'' (VArtifact icon)))
       ''artifacts'' (VStr ''art_2'') = Inr (VArtifact icon) \<and>
     fst (put ascii_lower store1 ''artifacts'' ''art_2'' (VArtifact icon)) = Inr ()"
    by blast
  from 1 2 show ?thesis by simp
qed

text \<open>
  Claim C2, as amended. In an opened store whose title index is a dictionary,
  \<^verbatim>\<open>put('artifacts', k, a)\<close> of an artifact returns normally and the title index then
  maps the lower-cased title \<open>lw (title a)\<close> to \<open>k\<close>, its other entries unchanged,
  whatever function \<open>lw\<close> stands for \<^verbatim>\<open>str.lower\<close>. A \<^verbatim>\<open>put\<close> on another
  collection leaves the title index as it is, except
  \<^verbatim>\<open>put('indexes', 'by_title', r)\<close>, which replaces the title index by \<open>r\<close>.
\<close>

theorem put_title_index:
  "(opened s \<and> title_index s = Some (VDict d) \<longrightarrow>
      fst (put lw s ''artifacts'' k (VArtifact a)) = Inr () \<and>
      title_index (snd (put lw s ''artifacts'' k (VArtifact a))) =
        Some (VDict (AList.update (lw (title a)) (VStr k) d)) \<and>
      (\<exists>d'. title_index (snd (put lw s ''artifacts'' k (VArtifact a))) = Some (VDict d') \<and>
            map_of d' (lw (title a)) = Some (VStr k))) \<and>
   (c \<noteq> ''artifacts'' \<and> \<not> (c = ''indexes'' \<and> k = ''by_title'') \<longrightarrow>
      title_index (snd (put lw s c k r)) = title_index s) \<and>
   (s ''indexes'' \<noteq> None \<longrightarrow>
      title_index (snd (put lw s ''indexes'' ''by_title'' r)) = Some r)"
proof (intro conjI impI)
  assume h: "opened s \<and> title_index s = Some (VDict d)"
  then have p: "fst (put lw s ''artifacts'' k (VArtifact a)) = Inr () \<and>
         title_index (snd (put lw s ''artifacts'' k (VArtifact a))) =
           Some (VDict (AList.update (lw (title a)) (VStr k) d))"
    using put_artifact_index by blast
  from p show "fst (put lw s ''artifacts'' k (VArtifact a)) = Inr ()" by simp
  from p show "title_index (snd (put lw s ''artifacts'' k (VArtifact a))) =
        Some (VDict (AList.update (lw (title a)) (VStr k) d))" by simp
  from p show "\<exists>d'. title_index (snd (put lw s ''artifacts'' k (VArtifact a))) = Some (VDict d') \<and>
            map_of d' (lw (title a)) = Some (VStr k)"
    by (simp add: update_conv)
next
  assume "c \<noteq> ''artifacts'' \<and> \<not> (c = ''indexes'' \<and> k = ''by_title'')"
  then show "title_index (snd (put lw s c k r)) = title_index s"
    by (auto simp: title_index_put_other)
next
  assume "s ''indexes'' \<noteq> None"
  then show "title_index (snd (put lw s ''indexes'' ''by_title'' r)) = Some r"
    by (simp add: title_index_put_other)
qed

theorem put_title_index_witness:
  "fst (put ascii_lower store1 ''artifacts'' ''art_2'' (VArtifact icon)) = Inr () \<and>
   title_index (snd (put ascii_lower store1 ''artifacts'' ''art_2'' (VArtifact icon))) =
     Some (VDict [(''portrait of marina'', VStr ''art_1''),
                  (''icon of the archangel'', VStr ''art_2'')]) \<and>
   title_index (snd (put ascii_lower store1 ''loans'' ''loan_2'' (VLoan (mk_loan ''loan_2'' ''ACTIVE'')))) =
     title_index store1 \<and>
   title_index (snd (put ascii_lower store1 ''indexes'' ''by_title'' (VDict []))) = Some (VDict [])"
proof -
  note a = put_title_index [where s = store1 and lw = ascii_lower and k = "''art_2''"
      and d = "[(''portrait of marina'', VStr ''art_1'')]" and a = icon and c = "''loans''"
      and r = "VLoan (mk_loan ''loan_2'' ''ACTIVE'')"]
  note b = put_title_index [where s = store1 and lw = ascii_lower and k = "''loan_2''"
      and d = "[]" and a = icon and c = "''loans''"
      and r = "VLoan (mk_loan ''loan_2'' ''ACTIVE'')"]
  note c = put_title_index [where s = store1 and lw = ascii_lower and k = "''by_title''"
      and d = "[]" and a = icon and c = "''indexes''" and r = "VDict []"]
  from a opened_store1 store1_index
  have 1: "fst (put ascii_lower store1 ''artifacts'' ''art_2'' (VArtifact icon)) = Inr () \<and>
    title_index (snd (put ascii_lower store1 ''artifacts'' ''art_2'' (VArtifact icon))) =
     Some (VDict [(''portrait of marina'', VStr ''art_1''),
                  (''icon of the archangel'', VStr ''art_2'')])"
    by (simp add: icon_fields lower_icon)
  have "''loans'' \<noteq> ''artifacts'' \<and> \<not> (''loans'' = ''indexes'' \<and> ''loan_2'' = ''by_title'')"
    by simp
  with b have 2: "title_index (snd (put ascii_lower store1 ''loans'' ''loan_2''
      (VLoan (mk_loan ''loan_2'' ''ACTIVE'')))) = title_index store1"
    by blast
  have "store1 ''indexes'' \<noteq> None" by (simp add: store1_indexes)
  with c have 3: "title_index (snd (put ascii_lower store1 ''indexes'' ''by_title'' (VDict []))) =
      Some (VDict [])"
    by blast
  from 1 2 3 show ?thesis by simp
qed

text \<open>
  Claim C2 as stated fails in both halves. \<^verbatim>\<open>indexes\<close> is a collection other than
  \<^verbatim>\<open>artifacts\<close>, and writing an empty dictionary under its key \<^verbatim>\<open>by_title\<close>
  returns normally and empties the title index. Writing \<^verbatim>\<open>None\<close> there returns
  normally too, and the next \<^verbatim>\<open>put('artifacts', k, a)\<close> of an artifact then stores
  the artifact and raises \<^verbatim>\<open>TypeError\<close> at the item assignment: the title index is
  still \<^verbatim>\<open>None\<close> and maps nothing to \<open>k\<close>.
\<close>

theorem put_indexes_replaces_title_index:
  "fst (put ascii_lower store1 ''indexes'' ''by_title'' (VDict [])) = Inr () \<and>
   title_index store1 = Some (VDict [(''portrait of marina'', VStr ''art_1'')]) \<and>
   title_index (snd (put ascii_lower store1 ''indexes'' ''by_title'' (VDict []))) =
     Some (VDict []) \<and>
   title_index (snd (put ascii_lower store1 ''indexes'' ''by_title'' (VDict []))) \<noteq>
     title_index store1 \<and>
   fst (put ascii_lower store1 ''indexes'' ''by_title'' VNone) = Inr () \<and>
   put ascii_lower (snd (put ascii_lower store1 ''indexes'' ''by_title'' VNone))
       ''artifacts'' ''art_2'' (VArtifact icon) =
     (Inl TypeError,
      store1(''indexes'' \<mapsto> [(''by_title'', VNone)],
             ''artifacts'' \<mapsto> [(''art_1'', VArtifact marina), (''art_2'', VArtifact icon)])) \<and>
   title_index (snd (put ascii_lower (snd (put ascii_lower store1 ''indexes'' ''by_title'' VNone))
       ''artifacts'' ''art_2'' (VArtifact icon))) = Some VNone"
proof -
  have 1: "fst (put ascii_lower store1 ''indexes'' ''by_title'' (VDict [])) = Inr () \<and>
    title_index store1 = Some (VDict [(''portrait of marina'', VStr ''art_1'')]) \<and>
    title_index (snd (put ascii_lower store1 ''indexes'' ''by_title'' (VDict []))) =
      Some (VDict []) \<and>
    title_index (snd (put ascii_lower store1 ''indexes'' ''by_title'' (VDict []))) \<noteq>
      title_index store1"
    using put_other [where s = store1 and c = "''indexes''" and k = "''by_title''"
        and v = "VDict []" and lw = ascii_lower] store1_indexes
    by (simp add: store1_index title_index_def)
  have 2: "fst (put ascii_lower store1 ''indexes'' ''by_title'' VNone) = Inr ()"
    using put_other [where s = store1 and c = "''indexes''" and k = "''by_title''"
        and v = VNone and lw = ascii_lower] store1_indexes
    by simp
  let ?s = "store1(''indexes'' \<mapsto> [(''by_title'', VNone)])"
  have 3: "put ascii_lower ?s ''artifacts'' ''art_2'' (VArtifact icon) =
     (Inl TypeError,
      ?s(''artifacts'' \<mapsto> [(''art_1'', VArtifact marina), (''art_2'', VArtifact icon)]))"
    using put_artifacts_unfold [where s = ?s and col = "[(''art_1'', VArtifact marina)]"
        and ix = "[(''by_title'', VNone)]" and w = VNone and k = "''art_2''"
        and v = "VArtifact icon" and lw = ascii_lower]
    by (simp add: store1_artifacts)
  then have 4: "title_index (snd (put ascii_lower ?s ''artifacts'' ''art_2'' (VArtifact icon))) =
      Some VNone"
    by (simp add: title_index_def)
  from 1 2 3 4 show ?thesis unfolding store1_index_broken by simp
qed

text \<open>
  Claim C7, as amended. Over an artifacts collection that holds artifacts,
  \<^verbatim>\<open>query_artifacts_by_material(m)\<close> returns, in the order of the collection, exactly
  the records whose material is present, is not the empty string, and contains \<open>m\<close>
  as a substring once both are lower-cased, whatever function \<open>lw\<close> stands for
  \<^verbatim>\<open>str.lower\<close>. An artifact without material or with the empty material is never
  returned. Querying \<^verbatim>\<open>oil\<close> over one artifact of material \<^verbatim>\<open>oil on canvas\<close>
  and one of material \<^verbatim>\<open>tempera\<close> returns the first only.
\<close>

theorem query_by_material:
  assumes "s ''artifacts'' = Some d" and "holds_only is_artifact s ''artifacts''"
  shows "query_artifacts_by_material lw s m =
           Inr (filter (\<lambda>v. \<exists>a mt. v = VArtifact a \<and> material a = Some mt \<and> mt \<noteq> [] \<and>
                                 sublist (lw m) (lw mt)) (map snd d)) \<and>
         (\<forall>r v. query_artifacts_by_material lw s m = Inr r \<longrightarrow>
            (v \<in> set r \<longleftrightarrow>
               (\<exists>k a mt. (k, v) \<in> set d \<and> v = VArtifact a \<and> material a = Some mt \<and>
                         mt \<noteq> [] \<and> sublist (lw m) (lw mt)))) \<and>
         (\<forall>r a. query_artifacts_by_material lw s m = Inr r \<and> VArtifact a \<in> set r \<longrightarrow>
            material a \<noteq> None \<and> material a \<noteq> Some [])"
proof -
  note q = query_artifacts_typed [OF assms, where m = m and lw = lw]
  have "\<forall>r v. query_artifacts_by_material lw s m = Inr r \<longrightarrow>
            (v \<in> set r \<longleftrightarrow>
               (\<exists>k a mt. (k, v) \<in> set d \<and> v = VArtifact a \<and> material a = Some mt \<and>
                         mt \<noteq> [] \<and> sublist (lw m) (lw mt)))"
    unfolding q by force
  moreover have "\<forall>r a. query_artifacts_by_material lw s m = Inr r \<and> VArtifact a \<in> set r \<longrightarrow>
            material a \<noteq> None \<and> material a \<noteq> Some []"
    unfolding q by auto
  ultimately show ?thesis using q by blast
qed

theorem query_by_material_witness:
  "query_artifacts_by_material ascii_lower store2 ''oil'' = Inr [VArtifact marina]"
proof -
  have "query_artifacts_by_material ascii_lower store2 ''oil'' =
     Inr (filter (\<lambda>v. \<exists>a mt. v = VArtifact a \<and> material a = Some mt \<and> mt \<noteq> [] \<and>
                 sublist (ascii_lower ''oil'') (ascii_lower mt))
            (map snd [(''art_1'', VArtifact marina), (''art_2'', VArtifact icon)]))"
    using query_by_material [OF store2_artifacts store2_typed(1),
        where m = "''oil''" and lw = ascii_lower] by blast
  then show ?thesis
    by (simp add: marina_fields icon_fields oil_matches)
qed

text \<open>
  Claim C7 as stated fails: the guard \<^verbatim>\<open>a.material and ...\<close> is false for the empty
  string as for \<^verbatim>\<open>None\<close>. An artifact whose material is the empty string has a
  material that is present and that contains the empty search string, and the query for
  the empty string does not return it.
\<close>

theorem query_skips_empty_material:
  "store3 ''artifacts'' = Some [(''art_3'', VArtifact fragment)] \<and>
   material fragment = Some [] \<and>
   sublist (ascii_lower []) (ascii_lower []) \<and>
   query_artifacts_by_material ascii_lower store3 [] = Inr []"
  by (simp add: store3_artifacts fragment_material query_artifacts_by_material_def
      material_matches_def ascii_lower_def)

text \<open>
  Claim C4. Over a loans collection that holds loans, \<^verbatim>\<open>is_on_loan\<close>, given the shelf,
  returns what the specification describes: the references of \<^verbatim>\<open>artifact.loans\<close> are
  resolved in list order, those that do not resolve are skipped, and the first resolved
  loan whose status is \<^verbatim>\<open>ACTIVE\<close> is returned with the flag \<^verbatim>\<open>True\<close>; when no
  reference resolves to an active loan the result is \<^verbatim>\<open>(False, None)\<close>. First match:
  the loan returned is referenced at a position before which no reference resolves to an
  active loan.
\<close>

theorem is_on_loan_first_active:
  assumes "holds_only is_loan s ''loans''"
  shows "is_on_loan a (Shelf s) =
           Inr (case first_active_loan s a of
                  None \<Rightarrow> (False, VNone)
                | Some l \<Rightarrow> (True, VLoan l)) \<and>
         (first_active_loan s a = None \<longleftrightarrow>
            (\<forall>lid \<in> set (loans a). \<forall>l.
               map_of (collection_of s ''loans'') lid = Some (VLoan l) \<longrightarrow>
               status l \<noteq> ''ACTIVE'')) \<and>
         (\<forall>l. first_active_loan s a = Some l \<longrightarrow>
            (\<exists>pre lid post. loans a = pre @ lid # post \<and>
               map_of (collection_of s ''loans'') lid = Some (VLoan l) \<and>
               status l = ''ACTIVE'' \<and>
               (\<forall>x \<in> set pre. \<forall>l'.
                  map_of (collection_of s ''loans'') x = Some (VLoan l') \<longrightarrow>
                  status l' \<noteq> ''ACTIVE'')))"
  using is_on_loan_typed [OF assms, of a] find_resolved_None [of s "loans a"]
    find_resolved_Some [of s "loans a"]
  unfolding first_active_loan_def by blast

theorem is_on_loan_first_active_witness:
  "is_on_loan marina (Shelf store2) = Inr (True, VLoan (mk_loan ''loan_2'' ''ACTIVE'')) \<and>
   is_on_loan icon (Shelf store2) = Inr (False, VNone) \<and>
   is_on_loan vase (Shelf store2) = Inr (False, VNone)"
proof -
  from is_on_loan_first_active [OF store2_typed(2), of marina]
  have 1: "is_on_loan marina (Shelf store2) = Inr (True, VLoan (mk_loan ''loan_2'' ''ACTIVE''))"
    by (simp add: marina_first_active)
  from is_on_loan_first_active [OF store2_typed(2), of icon]
  have 2: "is_on_loan icon (Shelf store2) = Inr (False, VNone)"
    by (simp add: icon_first_active)
  from is_on_loan_first_active [OF store2_typed(2), of vase]
  have 3: "is_on_loan vase (Shelf store2) = Inr (False, VNone)"
    by (simp add: vase_first_active)
  from 1 2 3 show ?thesis by simp
qed

text \<open>
  Claim C5. Over typed loans and conservations collections, \<^verbatim>\<open>display_status\<close>, given
  the shelf, returns a dictionary of exactly six entries: the artifact's identifier and
  title, the flag and the loan identifier from \<^verbatim>\<open>is_on_loan\<close> (\<^verbatim>\<open>None\<close> when not on
  loan), the identifier of \<^verbatim>\<open>current_version()\<close> (\<^verbatim>\<open>None\<close> without versions), and the
  identifier of the last conservation record: among the references of
  \<^verbatim>\<open>conservation_records\<close> that resolve, the record with the greatest date string
  (\<^verbatim>\<open>None\<close> when none resolves).
\<close>

theorem display_status_record:
  assumes "holds_only is_loan s ''loans''"
    and "holds_only is_conservation s ''conservations''"
  shows "\<exists>onloan ln lc.
     is_on_loan a (Shelf s) = Inr (onloan, ln) \<and>
     display_status a (Shelf s) =
       Inr [(''artifact_id'', VStr (artifact_id a)),
            (''title'', VStr (title a)),
            (''on_loan'', VBool onloan),
            (''loan_ref'', (case ln of VLoan l \<Rightarrow> VStr (loan_id l) | _ \<Rightarrow> VNone)),
            (''current_version'', opt_str (map_option version_id (current_version a))),
            (''last_conservation'', opt_str (map_option record_id lc))] \<and>
     (onloan \<longleftrightarrow> (\<exists>l. ln = VLoan l)) \<and>
     (\<not> onloan \<longrightarrow> ln = VNone) \<and>
     (resolved_conservations s (conservation_records a) = [] \<longrightarrow> lc = None) \<and>
     (resolved_conservations s (conservation_records a) \<noteq> [] \<longrightarrow>
        (\<exists>i. last_greatest date (resolved_conservations s (conservation_records a)) i \<and>
             lc = Some (resolved_conservations s (conservation_records a) ! i)))"
proof -
  let ?rs = "resolved_conservations s (conservation_records a)"
  let ?lc = "if ?rs = [] then None else Some (last (sort_key date ?rs))"
  let ?on = "first_active_loan s a \<noteq> None"
  let ?ln = "case first_active_loan s a of None \<Rightarrow> VNone | Some l \<Rightarrow> VLoan l"
  have 1: "is_on_loan a (Shelf s) = Inr (?on, ?ln)"
    by (cases "first_active_loan s a") (simp_all add: is_on_loan_typed [OF assms(1)])
  have 2: "display_status a (Shelf s) =
       Inr [(''artifact_id'', VStr (artifact_id a)),
            (''title'', VStr (title a)),
            (''on_loan'', VBool ?on),
            (''loan_ref'', (case ?ln of VLoan l \<Rightarrow> VStr (loan_id l) | _ \<Rightarrow> VNone)),
            (''current_version'', opt_str (map_option version_id (current_version a))),
            (''last_conservation'', opt_str (map_option record_id ?lc))]"
    by (cases "first_active_loan s a")
       (simp_all add: display_status_typed [OF assms] opt_str_def)
  have 3: "?on \<longleftrightarrow> (\<exists>l. ?ln = VLoan l)" "\<not> ?on \<longrightarrow> ?ln = VNone"
    by (cases "first_active_loan s a"; simp)+
  have 4: "?rs = [] \<longrightarrow> ?lc = None" by simp
  have 5: "?rs \<noteq> [] \<longrightarrow> (\<exists>i. last_greatest date ?rs i \<and> ?lc = Some (?rs ! i))"
    using last_sort_key_index [of ?rs date] by auto
  from 1 2 3 4 5 show ?thesis by blast
qed

theorem display_status_record_witness:
  "display_status marina (Shelf store2) =
     Inr [(''artifact_id'', VStr ''art_1''),
          (''title'', VStr ''Portrait of Marina''),
          (''on_loan'', VBool True),
          (''loan_ref'', VStr ''loan_2''),
          (''current_version'', VStr ''ver_2''),
          (''last_conservation'', VStr ''cons_1'')]"
proof -
  let ?rs = "resolved_conservations store2 (conservation_records marina)"
  from display_status_record [OF store2_typed(2,3), of marina]
  obtain onloan ln lc where
    l: "is_on_loan marina (Shelf store2) = Inr (onloan, ln)" and
    d: "display_status marina (Shelf store2) =
       Inr [(''artifact_id'', VStr (artifact_id marina)),
            (''title'', VStr (title marina)),
            (''on_loan'', VBool onloan),
            (''loan_ref'', (case ln of VLoan l \<Rightarrow> VStr (loan_id l) | _ \<Rightarrow> VNone)),
            (''current_version'', opt_str (map_option version_id (current_version marina))),
            (''last_conservation'', opt_str (map_option record_id lc))]" and
    c: "?rs \<noteq> [] \<longrightarrow> (\<exists>i. last_greatest date ?rs i \<and> lc = Some (?rs ! i))"
    by blast
  from l have ln: "onloan = True" "ln = VLoan (mk_loan ''loan_2'' ''ACTIVE'')"
    by (simp_all add: marina_on_loan)
  from c obtain i where "last_greatest date ?rs i" "lc = Some (?rs ! i)"
    by (auto simp: marina_resolved_conservations)
  then have lc: "lc = Some (mk_conservation ''cons_1'' ''2023-08-15'')"
    by (simp add: marina_resolved_conservations marina_conservations_greatest)
  show ?thesis
    unfolding d ln lc
    by (simp add: marina_fields marina_current_version opt_str_def mk_loan_def
        mk_version_def mk_conservation_def)
qed

text \<open>
  Claim C9. Given the \<^verbatim>\<open>SimpleOODB\<close> object instead of its shelf, the resolvers fail:
  \<^verbatim>\<open>SimpleOODB.get\<close> takes the default \<^verbatim>\<open>{}\<close> for a key and raises
  \<^verbatim>\<open>TypeError\<close>, so \<^verbatim>\<open>is_on_loan\<close> raises for every artifact with a loan reference
  and \<^verbatim>\<open>display_status\<close> raises for every artifact with a loan or a conservation
  reference. Given the shelf, both return a result.
\<close>

theorem resolvers_need_raw_shelf:
  "get s name (VDict []) = Inl TypeError \<and>
   (loans a \<noteq> [] \<longrightarrow>
      is_on_loan a (SimpleOODB s) = Inl TypeError \<and>
      display_status a (SimpleOODB s) = Inl TypeError) \<and>
   (conservation_records a \<noteq> [] \<longrightarrow> display_status a (SimpleOODB s) = Inl TypeError) \<and>
   (holds_only is_loan s ''loans'' \<longrightarrow> (\<exists>r. is_on_loan a (Shelf s) = Inr r)) \<and>
   (holds_only is_loan s ''loans'' \<and> holds_only is_conservation s ''conservations'' \<longrightarrow>
      (\<exists>r. display_status a (Shelf s) = Inr r))"
proof (intro conjI impI)
  show "get s name (VDict []) = Inl TypeError" by (rule get_dict_key)
next
  assume l: "loans a \<noteq> []"
  then show "is_on_loan a (SimpleOODB s) = Inl TypeError"
    by (simp add: is_on_loan_def scan_loans_oodb)
  then show "display_status a (SimpleOODB s) = Inl TypeError"
    by (simp add: display_status_def)
next
  assume c: "conservation_records a \<noteq> []"
  show "display_status a (SimpleOODB s) = Inl TypeError"
  proof (cases "loans a = []")
    case True
    with c show ?thesis
      by (simp add: display_status_def is_on_loan_oodb_empty last_conservation_def
          resolve_all_oodb)
  next
    case False
    then show ?thesis
      by (simp add: display_status_def is_on_loan_def scan_loans_oodb)
  qed
next
  assume "holds_only is_loan s ''loans''"
  then show "\<exists>r. is_on_loan a (Shelf s) = Inr r"
    by (simp add: is_on_loan_typed)
next
  assume "holds_only is_loan s ''loans'' \<and> holds_only is_conservation s ''conservations''"
  then show "\<exists>r. display_status a (Shelf s) = Inr r"
    by (simp add: display_status_typed)
qed

theorem resolvers_need_raw_shelf_witness:
  "get store2 ''loans'' (VDict []) = Inl TypeError \<and>
   is_on_loan marina (SimpleOODB store2) = Inl TypeError \<and>
   display_status marina (SimpleOODB store2) = Inl TypeError \<and>
   (\<exists>r. is_on_loan marina (Shelf store2) = Inr r) \<and>
   (\<exists>r. display_status marina (Shelf store2) = Inr r)"
proof -
  have "loans marina \<noteq> []" by (simp add: marina_fields)
  with resolvers_need_raw_shelf [of store2 "''loans''" marina] store2_typed(2,3)
  show ?thesis by blast
qed

end
